theory Spec2Isabelle
  imports Main "HOL-Library.Sublist"
begin

section \<open>Subnet discovery of the AWS cloud provider (pkg/cloudprovider/aws/subnets.go)\<close>

text \<open>
  The file resolves the subnets of a cluster: \<open>getSubnets\<close> reads them from a cache
  keyed by the cluster's name or asks EC2 for them, and \<open>Get\<close> narrows that list by the
  caller's constraints with \<open>filter\<close> and the predicates \<open>byName\<close>, \<open>byTagKey\<close> and
  \<open>byZones\<close>.

  Go values are modelled as follows.
  \<^item> A \<open>*string\<close> of the AWS SDK is a \<open>string option\<close>, \<open>None\<close> being the nil pointer;
    \<open>aws.StringValue\<close> reads nil as the empty string and \<open>aws.String\<close> never returns nil.
  \<^item> An \<open>*ec2.Subnet\<close> and an \<open>*ec2.Tag\<close> are records of the fields this file reads. The
    elements of \<open>Subnets\<close> and of \<open>Tags\<close> are the structs themselves: the code dereferences
    every element without a nil check, and the SDK's decoder allocates each element it
    returns.
  \<^item> A slice is the list of its elements. A second model, further down, keeps slice
    headers and their backing arrays in a store, for what narrowing leaves untouched.
  \<^item> \<open>Get\<close> reads through its arguments \<open>provisioner\<close> and \<open>constraints\<close> without a
    nil check; they are the structs themselves as well.
  \<^item> A Go \<open>error\<close> is a value of the datatype \<open>error\<close>; a function returning
    \<open>(value, error)\<close> returns a sum, \<open>Inl\<close> the error.
\<close>

subsection \<open>Data of the AWS SDK\<close>

record Tag =
  Key :: "string option"
  Value :: "string option"

record Subnet =
  SubnetId :: "string option"
  AvailabilityZone :: "string option"
  Tags :: "Tag list"

record Filter =
  Name :: "string option"
  Values :: "string option list"

record DescribeSubnetsInput =
  Filters :: "Filter list"

record DescribeSubnetsOutput =
  Subnets :: "Subnet list"

text \<open>\<open>aws.StringValue\<close>: the string a pointer points to, the empty string for nil.\<close>

definition aws_StringValue :: "string option \<Rightarrow> string" where
  "aws_StringValue v = (case v of Some s \<Rightarrow> s | None \<Rightarrow> [])"

text \<open>\<open>aws.String\<close>: a pointer to a copy of the string.\<close>

definition aws_String :: "string \<Rightarrow> string option" where
  "aws_String v = Some v"

subsection \<open>The narrowing function and the three predicates\<close>

text \<open>
  \<open>filter\<close> starts from the empty slice \<open>result\<close> and ranges over \<open>subnets\<close>, appending
  each subnet the predicate accepts. \<open>filter_loop\<close> is the loop, its second argument the
  variable \<open>result\<close>.
\<close>

fun filter_loop :: "(Subnet \<Rightarrow> bool) \<Rightarrow> Subnet list \<Rightarrow> Subnet list \<Rightarrow> Subnet list" where
  "filter_loop predicate result [] = result"
| "filter_loop predicate result (subnet # subnets) =
     (if predicate subnet
      then filter_loop predicate (result @ [subnet]) subnets
      else filter_loop predicate result subnets)"

definition filter_subnets :: "(Subnet \<Rightarrow> bool) \<Rightarrow> Subnet list \<Rightarrow> Subnet list" where
  "filter_subnets predicate subnets = filter_loop predicate [] subnets"

text \<open>
  \<open>byName\<close> ranges over the tags and returns at the first tag whose key is \<open>"Name"\<close>, with
  the comparison of that tag's value; it returns false when the loop ends.
\<close>

fun byName_loop :: "string \<Rightarrow> Tag list \<Rightarrow> bool" where
  "byName_loop name [] = False"
| "byName_loop name (tag # tags) =
     (if aws_StringValue (Key tag) = ''Name''
      then aws_StringValue (Value tag) = name
      else byName_loop name tags)"

definition byName :: "string \<Rightarrow> Subnet \<Rightarrow> bool" where
  "byName name subnet = byName_loop name (Tags subnet)"

fun byTagKey_loop :: "string \<Rightarrow> Tag list \<Rightarrow> bool" where
  "byTagKey_loop tagKey [] = False"
| "byTagKey_loop tagKey (tag # tags) =
     (if aws_StringValue (Key tag) = tagKey then True else byTagKey_loop tagKey tags)"

definition byTagKey :: "string \<Rightarrow> Subnet \<Rightarrow> bool" where
  "byTagKey tagKey subnet = byTagKey_loop tagKey (Tags subnet)"

text \<open>\<open>byZones\<close> ranges over the requested zones, not over anything of the subnet.\<close>

fun byZones_loop :: "Subnet \<Rightarrow> string list \<Rightarrow> bool" where
  "byZones_loop subnet [] = False"
| "byZones_loop subnet (zone # zones) =
     (if aws_StringValue (AvailabilityZone subnet) = zone then True else byZones_loop subnet zones)"

definition byZones :: "string list \<Rightarrow> Subnet \<Rightarrow> bool" where
  "byZones zones subnet = byZones_loop subnet zones"

subsection \<open>Declarations of the package that live in other files\<close>

text \<open>
  Modelled from the spec: the type \<open>Constraints\<close> and its accessors \<open>GetSubnetName\<close> and
  \<open>GetSubnetTagKey\<close> are declared in another file of the package. The spec gives the
  constraints as an optional name, an optional tag key and a list of zones, absence
  being distinct from the empty string. The accessors return a \<open>*string\<close>, nil when the
  constraint is absent.
\<close>

record Constraints =
  SubnetName :: "string option"
  SubnetTagKey :: "string option"
  Zones :: "string list"

definition GetSubnetName :: "Constraints \<Rightarrow> string option" where
  "GetSubnetName constraints = SubnetName constraints"

definition GetSubnetTagKey :: "Constraints \<Rightarrow> string option" where
  "GetSubnetTagKey constraints = SubnetTagKey constraints"

text \<open>
  Modelled from the spec: the type \<open>v1alpha1.Provisioner\<close> is declared in another package.
  This file reads \<open>provisioner.Spec.Cluster.Name\<close> only, a string; everything else a
  provisioner holds is the extension of the record.
\<close>

record Provisioner =
  Spec_Cluster_Name :: string

text \<open>
  Modelled from the spec: the constants \<open>CacheTTL\<close> and \<open>ClusterTagKeyFormat\<close> are declared
  in another file of the package. The spec gives the format as one fixed pattern that
  embeds the cluster name once; it is kept as the text before and the text after the
  verb, and \<open>Sprintf\<close> substitutes the argument between them. \<open>CacheTTL\<close> is a duration,
  in the unit of the clock.
\<close>

type_synonym time = int

record Constants =
  CacheTTL :: time
  ClusterTagKeyFormat :: "string \<times> string"

definition Sprintf :: "string \<times> string \<Rightarrow> string \<Rightarrow> string" where
  "Sprintf format a = fst format @ a @ snd format"

subsection \<open>The cache store\<close>

text \<open>
  Modelled from the spec: the cache is the library \<open>go-cache\<close>, which is not part of this
  file. The spec's contract: an entry is a value with the expiry instant "insertion
  time + TTL"; \<open>get\<close> finds nothing when the key is absent or its entry has expired,
  also when the entry has not been swept yet; \<open>set\<close> replaces the entry of the key and
  resets its expiry; the periodic sweep removes expired entries. The clock is read by
  the library, so each operation takes the instant at which it runs. The provider is
  the only writer of its cache and stores subnet lists only, so the type assertion
  \<open>subnets.([]*ec2.Subnet)\<close> of \<open>getSubnets\<close> never fails and the cache holds subnet
  lists.
\<close>

record Item =
  Object :: "Subnet list"
  Expiration :: time

type_synonym Cache = "string \<Rightarrow> Item option"

definition expired :: "time \<Rightarrow> Item \<Rightarrow> bool" where
  "expired now item = (Expiration item < now)"

definition cache_Get :: "time \<Rightarrow> Cache \<Rightarrow> string \<Rightarrow> Subnet list option" where
  "cache_Get now c k =
     (case c k of
        None \<Rightarrow> None
      | Some item \<Rightarrow> if expired now item then None else Some (Object item))"

definition cache_Set :: "time \<Rightarrow> Cache \<Rightarrow> string \<Rightarrow> Subnet list \<Rightarrow> time \<Rightarrow> Cache" where
  "cache_Set now c k x d = c(k \<mapsto> \<lparr>Object = x, Expiration = now + d\<rparr>)"

definition cache_DeleteExpired :: "time \<Rightarrow> Cache \<Rightarrow> Cache" where
  "cache_DeleteExpired now c =
     (\<lambda>k. case c k of
            None \<Rightarrow> None
          | Some item \<Rightarrow> if expired now item then None else Some item)"

subsection \<open>The provider\<close>

text \<open>
  The provider holds the EC2 client and the cache. The client is the outside world: a
  call of \<open>getSubnets\<close> takes the answer of \<open>DescribeSubnetsWithContext\<close> as a function
  \<open>ec2api\<close> of the request (an error of the SDK or of the cancelled context, or the
  output), and the provider's state records every request sent, in order. So a call
  that sends nothing leaves \<open>requests\<close> as it was.

  An error of the SDK is kept as the text of its \<open>Error()\<close> method. The only error this
  file builds is \<open>fmt.Errorf("describing subnets, %w", err)\<close>: a \<open>wrapError\<close> of the
  formatted message and the wrapped error.
\<close>

type_synonym cause = string

datatype error = wrapError (msg: string) (Unwrap: cause)

definition Errorf_describing_subnets :: "cause \<Rightarrow> error" where
  "Errorf_describing_subnets err = wrapError (''describing subnets, '' @ err) err"

record SubnetProvider =
  cache :: Cache
  requests :: "DescribeSubnetsInput list"

text \<open>The request of \<open>getSubnets\<close>: one filter, named \<open>tag-key\<close>, with one value.\<close>

definition describeSubnetsInput ::
  "Constants \<Rightarrow> 'a Provisioner_scheme \<Rightarrow> DescribeSubnetsInput" where
  "describeSubnetsInput K provisioner =
     \<lparr>Filters =
        [\<lparr>Name = aws_String ''tag-key'',
          Values = [aws_String (Sprintf (ClusterTagKeyFormat K) (Spec_Cluster_Name provisioner))]\<rparr>]\<rparr>"

text \<open>
  \<open>getSubnets\<close>: \<open>now\<close> is the instant of \<open>cache.Get\<close> and \<open>later\<close> the instant of
  \<open>cache.Set\<close>, after the call to EC2 has returned. The debug log line is not modelled.
\<close>

definition getSubnets ::
  "Constants \<Rightarrow> (DescribeSubnetsInput \<Rightarrow> cause + DescribeSubnetsOutput) \<Rightarrow> time \<Rightarrow> time \<Rightarrow>
   SubnetProvider \<Rightarrow> 'a Provisioner_scheme \<Rightarrow> (error + Subnet list) \<times> SubnetProvider" where
  "getSubnets K ec2api now later s provisioner =
     (case cache_Get now (cache s) (Spec_Cluster_Name provisioner) of
        Some subnets \<Rightarrow> (Inr subnets, s)
      | None \<Rightarrow>
          (let input = describeSubnetsInput K provisioner;
               s = s\<lparr>requests := requests s @ [input]\<rparr>
           in case ec2api input of
                Inl err \<Rightarrow> (Inl (Errorf_describing_subnets err), s)
              | Inr output \<Rightarrow>
                  (Inr (Subnets output),
                   s\<lparr>cache := cache_Set later (cache s) (Spec_Cluster_Name provisioner)
                                 (Subnets output) (CacheTTL K)\<rparr>)))"

definition Get ::
  "Constants \<Rightarrow> (DescribeSubnetsInput \<Rightarrow> cause + DescribeSubnetsOutput) \<Rightarrow> time \<Rightarrow> time \<Rightarrow>
   SubnetProvider \<Rightarrow> 'a Provisioner_scheme \<Rightarrow> Constraints \<Rightarrow>
   (error + Subnet list) \<times> SubnetProvider" where
  "Get K ec2api now later s provisioner constraints =
     (case getSubnets K ec2api now later s provisioner of
        (Inl err, s) \<Rightarrow> (Inl err, s)
      | (Inr subnets, s) \<Rightarrow>
          (let subnets =
                 (case GetSubnetName constraints of
                    Some name \<Rightarrow> filter_subnets (byName (aws_StringValue (Some name))) subnets
                  | None \<Rightarrow> subnets);
               subnets =
                 (case GetSubnetTagKey constraints of
                    Some tagKey \<Rightarrow> filter_subnets (byTagKey tagKey) subnets
                  | None \<Rightarrow> subnets);
               subnets =
                 (if length (Zones constraints) \<noteq> 0
                  then filter_subnets (byZones (Zones constraints)) subnets
                  else subnets)
           in (Inr subnets, s)))"

subsection \<open>The pipeline as the specification words it\<close>

text \<open>
  The specification's stages, written with the list filter of the library: a stage
  narrows by its predicate when its constraint is present and is the identity
  otherwise. \<open>narrow\<close> runs them in the order by-name, by-tag-key, by-zone, each on the
  output of the one before. \<open>present\<close> lists the predicates of the constraints that are
  present.
\<close>

definition stage_by_name :: "Constraints \<Rightarrow> Subnet list \<Rightarrow> Subnet list" where
  "stage_by_name constraints subnets =
     (case SubnetName constraints of
        None \<Rightarrow> subnets
      | Some name \<Rightarrow> List.filter (byName name) subnets)"

definition stage_by_tag_key :: "Constraints \<Rightarrow> Subnet list \<Rightarrow> Subnet list" where
  "stage_by_tag_key constraints subnets =
     (case SubnetTagKey constraints of
        None \<Rightarrow> subnets
      | Some tagKey \<Rightarrow> List.filter (byTagKey tagKey) subnets)"

definition stage_by_zone :: "Constraints \<Rightarrow> Subnet list \<Rightarrow> Subnet list" where
  "stage_by_zone constraints subnets =
     (if Zones constraints = [] then subnets
      else List.filter (byZones (Zones constraints)) subnets)"

definition narrow :: "Constraints \<Rightarrow> Subnet list \<Rightarrow> Subnet list" where
  "narrow constraints subnets =
     stage_by_zone constraints (stage_by_tag_key constraints (stage_by_name constraints subnets))"

definition present :: "Constraints \<Rightarrow> (Subnet \<Rightarrow> bool) list" where
  "present constraints =
     (case SubnetName constraints of None \<Rightarrow> [] | Some name \<Rightarrow> [byName name]) @
     (case SubnetTagKey constraints of None \<Rightarrow> [] | Some tagKey \<Rightarrow> [byTagKey tagKey]) @
     (if Zones constraints = [] then [] else [byZones (Zones constraints)])"

text \<open>The first tag with key \<open>"Name"\<close>, if there is one.\<close>

definition first_Name_tag :: "Subnet \<Rightarrow> Tag option" where
  "first_Name_tag subnet = find (\<lambda>tag. aws_StringValue (Key tag) = ''Name'') (Tags subnet)"

subsection \<open>Slices in the store\<close>

text \<open>
  The model above takes a slice as the list of its elements. Go keeps a slice as a
  header (the address of a backing array, a length and a capacity), and two headers may
  share one array; what a function leaves untouched is a statement about arrays. This
  second model of \<open>filter\<close>, \<open>getSubnets\<close> and \<open>Get\<close> keeps the arrays in a store.

  \<^item> A \<open>ptr\<close> is the address of a subnet struct, \<open>0\<close> the nil pointer. The function
    \<open>objs\<close> gives the struct at an address; this file allocates no subnet and writes no
    field of one, so \<open>objs\<close> is an argument and not part of the state.
  \<^item> A \<open>heap\<close> is the list of the backing arrays allocated so far, an array's address
    being its position; allocating puts a new array at the end. An array holds as many
    cells as its capacity.
  \<^item> A slice header holds no array when its capacity is zero, as the literal
    \<open>[]*ec2.Subnet{}\<close> does.
\<close>

type_synonym ptr = nat

type_synonym heap = "ptr list list"

record slice =
  array :: "nat option"
  len :: nat
  cap :: nat

text \<open>
  The headers the Go runtime builds are \<open>valid\<close>: the length is at most the capacity and
  the array, if any, is allocated and has the capacity as its size. \<open>fresh h sl\<close> says
  that the array of \<open>sl\<close> is none of the arrays of the heap \<open>h\<close>.
\<close>

definition valid :: "heap \<Rightarrow> slice \<Rightarrow> bool" where
  "valid h sl =
     (len sl \<le> cap sl \<and>
      (case array sl of
         None \<Rightarrow> cap sl = 0
       | Some a \<Rightarrow> a < length h \<and> length (h ! a) = cap sl))"

definition fresh :: "heap \<Rightarrow> slice \<Rightarrow> bool" where
  "fresh h sl = (case array sl of None \<Rightarrow> True | Some a \<Rightarrow> length h \<le> a)"

text \<open>
  \<open>cell\<close> reads one element; a range loop reads index \<open>i\<close> below the length, which is
  inside the array for a valid header (outside, where Go panics, the model reads nil).
  \<open>elems\<close> is the list of the elements of a slice.
\<close>

definition cell :: "heap \<Rightarrow> slice \<Rightarrow> nat \<Rightarrow> ptr" where
  "cell h sl i =
     (case array sl of
        None \<Rightarrow> 0
      | Some a \<Rightarrow> if a < length h \<and> i < length (h ! a) then h ! a ! i else 0)"

definition elems :: "heap \<Rightarrow> slice \<Rightarrow> ptr list" where
  "elems h sl = map (cell h sl) [0..<len sl]"

text \<open>
  The built-in \<open>append\<close> of one element. With room left it writes the cell behind the
  last element of the same array. Otherwise it allocates an array, copies the elements
  and writes the new one behind them; \<open>newcap\<close> is the growth policy of the runtime, and
  the new capacity is at least the new length.
\<close>

definition growslice :: "(nat \<Rightarrow> nat) \<Rightarrow> heap \<Rightarrow> slice \<Rightarrow> ptr \<Rightarrow> heap \<times> slice" where
  "growslice newcap h sl v =
     (let c = max (Suc (len sl)) (newcap (cap sl))
      in (h @ [elems h sl @ v # replicate (c - Suc (len sl)) 0],
          \<lparr>array = Some (length h), len = Suc (len sl), cap = c\<rparr>))"

definition append_h :: "(nat \<Rightarrow> nat) \<Rightarrow> heap \<Rightarrow> slice \<Rightarrow> ptr \<Rightarrow> heap \<times> slice" where
  "append_h newcap h sl v =
     (if len sl < cap sl
      then (case array sl of
              Some a \<Rightarrow> (h[a := (h ! a)[len sl := v]], sl\<lparr>len := Suc (len sl)\<rparr>)
            | None \<Rightarrow> growslice newcap h sl v)
      else growslice newcap h sl v)"

text \<open>
  \<open>filter\<close> in the store: \<open>result\<close> starts as the empty literal; the loop ranges over
  the indices below the length of \<open>subnets\<close>, reading each element from the heap as it is
  at that iteration.
\<close>

fun filter_range ::
  "(Subnet \<Rightarrow> bool) \<Rightarrow> (ptr \<Rightarrow> Subnet) \<Rightarrow> (nat \<Rightarrow> nat) \<Rightarrow> slice \<Rightarrow> nat list \<Rightarrow>
   heap \<Rightarrow> slice \<Rightarrow> heap \<times> slice" where
  "filter_range predicate objs newcap subnets [] h result = (h, result)"
| "filter_range predicate objs newcap subnets (i # is) h result =
     (let subnet = cell h subnets i
      in if predicate (objs subnet)
         then (case append_h newcap h result subnet of
                 (h, result) \<Rightarrow> filter_range predicate objs newcap subnets is h result)
         else filter_range predicate objs newcap subnets is h result)"

definition filter_h ::
  "(Subnet \<Rightarrow> bool) \<Rightarrow> (ptr \<Rightarrow> Subnet) \<Rightarrow> (nat \<Rightarrow> nat) \<Rightarrow> slice \<Rightarrow> heap \<Rightarrow> heap \<times> slice" where
  "filter_h predicate objs newcap subnets h =
     filter_range predicate objs newcap subnets [0..<len subnets] h
       \<lparr>array = None, len = 0, cap = 0\<rparr>"

text \<open>
  Modelled from the spec: the cache store, with the contract given above, its entries
  now holding slice headers. The SDK call returns its output together with the heap as
  it leaves it.
\<close>

record Item_h =
  Object_h :: slice
  Expiration_h :: time

type_synonym Cache_h = "string \<Rightarrow> Item_h option"

definition expired_h :: "time \<Rightarrow> Item_h \<Rightarrow> bool" where
  "expired_h now item = (Expiration_h item < now)"

definition cache_Get_h :: "time \<Rightarrow> Cache_h \<Rightarrow> string \<Rightarrow> slice option" where
  "cache_Get_h now c k =
     (case c k of
        None \<Rightarrow> None
      | Some item \<Rightarrow> if expired_h now item then None else Some (Object_h item))"

definition cache_Set_h :: "time \<Rightarrow> Cache_h \<Rightarrow> string \<Rightarrow> slice \<Rightarrow> time \<Rightarrow> Cache_h" where
  "cache_Set_h now c k x d = c(k \<mapsto> \<lparr>Object_h = x, Expiration_h = now + d\<rparr>)"

record DescribeSubnetsOutput_h =
  Subnets_h :: slice

record SubnetProvider_h =
  cache_h :: Cache_h
  requests_h :: "DescribeSubnetsInput list"

definition getSubnets_h ::
  "Constants \<Rightarrow> (DescribeSubnetsInput \<Rightarrow> heap \<Rightarrow> (cause + DescribeSubnetsOutput_h) \<times> heap) \<Rightarrow>
   time \<Rightarrow> time \<Rightarrow> SubnetProvider_h \<Rightarrow> heap \<Rightarrow> 'a Provisioner_scheme \<Rightarrow>
   (error + slice) \<times> SubnetProvider_h \<times> heap" where
  "getSubnets_h K ec2api now later s h provisioner =
     (case cache_Get_h now (cache_h s) (Spec_Cluster_Name provisioner) of
        Some subnets \<Rightarrow> (Inr subnets, s, h)
      | None \<Rightarrow>
          (let input = describeSubnetsInput K provisioner;
               s = s\<lparr>requests_h := requests_h s @ [input]\<rparr>
           in case ec2api input h of
                (Inl err, h) \<Rightarrow> (Inl (Errorf_describing_subnets err), s, h)
              | (Inr output, h) \<Rightarrow>
                  (Inr (Subnets_h output),
                   s\<lparr>cache_h := cache_Set_h later (cache_h s) (Spec_Cluster_Name provisioner)
                                   (Subnets_h output) (CacheTTL K)\<rparr>,
                   h)))"

definition Get_h ::
  "Constants \<Rightarrow> (ptr \<Rightarrow> Subnet) \<Rightarrow> (nat \<Rightarrow> nat) \<Rightarrow>
   (DescribeSubnetsInput \<Rightarrow> heap \<Rightarrow> (cause + DescribeSubnetsOutput_h) \<times> heap) \<Rightarrow>
   time \<Rightarrow> time \<Rightarrow> SubnetProvider_h \<Rightarrow> heap \<Rightarrow> 'a Provisioner_scheme \<Rightarrow> Constraints \<Rightarrow>
   (error + slice) \<times> SubnetProvider_h \<times> heap" where
  "Get_h K objs newcap ec2api now later s h provisioner constraints =
     (case getSubnets_h K ec2api now later s h provisioner of
        (Inl err, s, h) \<Rightarrow> (Inl err, s, h)
      | (Inr subnets, s, h) \<Rightarrow>
          (let (h, subnets) =
                 (case GetSubnetName constraints of
                    Some name \<Rightarrow>
                      filter_h (byName (aws_StringValue (Some name))) objs newcap subnets h
                  | None \<Rightarrow> (h, subnets));
               (h, subnets) =
                 (case GetSubnetTagKey constraints of
                    Some tagKey \<Rightarrow> filter_h (byTagKey tagKey) objs newcap subnets h
                  | None \<Rightarrow> (h, subnets));
               (h, subnets) =
                 (if length (Zones constraints) \<noteq> 0
                  then filter_h (byZones (Zones constraints)) objs newcap subnets h
                  else (h, subnets))
           in (Inr subnets, s, h)))"

subsection \<open>Concrete values\<close>

text \<open>The two subnets of the specification's example, and a subnet with two \<open>Name\<close> tags.\<close>

definition s1 :: Subnet where
  "s1 = \<lparr>SubnetId = Some ''s1'', AvailabilityZone = Some ''us-east-1a'',
         Tags = [\<lparr>Key = Some ''Name'', Value = Some ''a''\<rparr>]\<rparr>"

definition s2 :: Subnet where
  "s2 = \<lparr>SubnetId = Some ''s2'', AvailabilityZone = Some ''us-east-1b'',
         Tags = [\<lparr>Key = Some ''Name'', Value = Some ''b''\<rparr>]\<rparr>"

definition s3 :: Subnet where
  "s3 = \<lparr>SubnetId = Some ''s3'', AvailabilityZone = Some ''us-east-1c'',
         Tags = [\<lparr>Key = Some ''env'', Value = None\<rparr>,
                 \<lparr>Key = Some ''Name'', Value = Some ''a''\<rparr>,
                 \<lparr>Key = Some ''Name'', Value = Some ''b''\<rparr>]\<rparr>"

definition K0 :: Constants where
  "K0 = \<lparr>CacheTTL = 60, ClusterTagKeyFormat = (''kubernetes.io/cluster/'', [])\<rparr>"

definition prod_cluster :: Provisioner where
  "prod_cluster = \<lparr>Spec_Cluster_Name = ''prod''\<rparr>"

definition dev_cluster :: Provisioner where
  "dev_cluster = \<lparr>Spec_Cluster_Name = ''dev''\<rparr>"

definition no_constraints :: Constraints where
  "no_constraints = \<lparr>SubnetName = None, SubnetTagKey = None, Zones = []\<rparr>"

definition empty_provider :: SubnetProvider where
  "empty_provider = \<lparr>cache = Map.empty, requests = []\<rparr>"

definition warm_provider :: SubnetProvider where
  "warm_provider =
     \<lparr>cache = [''prod'' \<mapsto> \<lparr>Object = [s1, s2, s3], Expiration = 100\<rparr>], requests = []\<rparr>"

definition ec2api_ok :: "DescribeSubnetsInput \<Rightarrow> cause + DescribeSubnetsOutput" where
  "ec2api_ok input = Inr \<lparr>Subnets = [s1, s2]\<rparr>"

definition ec2api_cancelled :: "DescribeSubnetsInput \<Rightarrow> cause + DescribeSubnetsOutput" where
  "ec2api_cancelled input = Inl ''RequestCanceled: request context canceled''"

text \<open>
  An EC2 that answers by the request it is sent, and a store: one array of three subnet
  pointers, cached for the cluster \<open>prod\<close>.
\<close>

definition ec2api_tagged :: "DescribeSubnetsInput \<Rightarrow> cause + DescribeSubnetsOutput" where
  "ec2api_tagged input =
     (if input = \<lparr>Filters = [\<lparr>Name = Some ''tag-key'',
                               Values = [Some ''kubernetes.io/cluster/prod'']\<rparr>]\<rparr>
      then Inr \<lparr>Subnets = [s1, s2]\<rparr>
      else if Filters input = [] then Inr \<lparr>Subnets = [s1, s2, s3]\<rparr>
      else Inl ''InvalidParameterValue: unknown cluster tag'')"

definition objs0 :: "ptr \<Rightarrow> Subnet" where
  "objs0 p = (if p = 1 then s1 else if p = 2 then s2 else s3)"

definition heap0 :: heap where
  "heap0 = [[1, 2, 3]]"

definition base0 :: slice where
  "base0 = \<lparr>array = Some 0, len = 3, cap = 3\<rparr>"

definition warm_provider_h :: SubnetProvider_h where
  "warm_provider_h =
     \<lparr>cache_h = [''prod'' \<mapsto> \<lparr>Object_h = base0, Expiration_h = 100\<rparr>], requests_h = []\<rparr>"

definition ec2api_cancelled_h ::
  "DescribeSubnetsInput \<Rightarrow> heap \<Rightarrow> (cause + DescribeSubnetsOutput_h) \<times> heap" where
  "ec2api_cancelled_h input h = (Inl ''RequestCanceled: request context canceled'', h)"

definition double :: "nat \<Rightarrow> nat" where
  "double n = 2 * n"

subsection \<open>The narrowing function is the list filter\<close>

lemma filter_loop_append:
  "filter_loop predicate result subnets = result @ List.filter predicate subnets"
  by (induction subnets arbitrary: result) simp_all

lemma filter_subnets_eq: "filter_subnets predicate subnets = List.filter predicate subnets"
  by (simp add: filter_subnets_def filter_loop_append)

subsection \<open>The predicates and the cache lookup, characterised\<close>

lemma byName_loop_find:
  "byName_loop name tags =
     (case find (\<lambda>tag. aws_StringValue (Key tag) = ''Name'') tags of
        None \<Rightarrow> False
      | Some tag \<Rightarrow> aws_StringValue (Value tag) = name)"
  by (induction tags) simp_all

lemma byTagKey_loop_iff:
  "byTagKey_loop tagKey tags = (\<exists>tag\<in>set tags. aws_StringValue (Key tag) = tagKey)"
  by (induction tags) auto

lemma byZones_loop_iff:
  "byZones_loop subnet zones = (aws_StringValue (AvailabilityZone subnet) \<in> set zones)"
  by (induction zones) auto

lemma Get_narrow:
  "Get K ec2api now later s provisioner constraints =
     (case getSubnets K ec2api now later s provisioner of
        (Inl err, s') \<Rightarrow> (Inl err, s')
      | (Inr subnets, s') \<Rightarrow> (Inr (narrow constraints subnets), s'))"
  by (simp add: Get_def narrow_def stage_by_name_def stage_by_tag_key_def stage_by_zone_def
      GetSubnetName_def GetSubnetTagKey_def aws_StringValue_def filter_subnets_eq Let_def
      split: prod.splits sum.splits option.splits)

lemma getSubnets_hit:
  "cache_Get now (cache s) (Spec_Cluster_Name provisioner) = Some subnets \<Longrightarrow>
   getSubnets K ec2api now later s provisioner = (Inr subnets, s)"
  by (simp add: getSubnets_def)

lemma getSubnets_miss_err:
  "cache_Get now (cache s) (Spec_Cluster_Name provisioner) = None \<Longrightarrow>
   ec2api (describeSubnetsInput K provisioner) = Inl err \<Longrightarrow>
   getSubnets K ec2api now later s provisioner =
     (Inl (Errorf_describing_subnets err),
      s\<lparr>requests := requests s @ [describeSubnetsInput K provisioner]\<rparr>)"
  by (simp add: getSubnets_def Let_def)

lemma getSubnets_miss_ok:
  "cache_Get now (cache s) (Spec_Cluster_Name provisioner) = None \<Longrightarrow>
   ec2api (describeSubnetsInput K provisioner) = Inr output \<Longrightarrow>
   getSubnets K ec2api now later s provisioner =
     (Inr (Subnets output),
      \<lparr>cache = cache_Set later (cache s) (Spec_Cluster_Name provisioner) (Subnets output) (CacheTTL K),
       requests = requests s @ [describeSubnetsInput K provisioner]\<rparr>)"
  by (simp add: getSubnets_def Let_def)

lemma cache_Get_valid:
  "c k = Some item \<Longrightarrow> \<not> expired now item \<Longrightarrow> cache_Get now c k = Some (Object item)"
  by (simp add: cache_Get_def)

lemma fold_filter:
  "fold List.filter ps xs = List.filter (\<lambda>x. \<forall>p\<in>set ps. p x) xs"
proof (induction ps arbitrary: xs)
  case Nil
  show ?case by simp
next
  case (Cons p ps)
  have "fold List.filter (p # ps) xs = List.filter (\<lambda>x. \<forall>q\<in>set ps. q x) (List.filter p xs)"
    by (simp add: Cons.IH)
  also have "\<dots> = List.filter (\<lambda>x. \<forall>q\<in>set (p # ps). q x) xs"
    by (simp add: conj_commute)
  finally show ?case .
qed

lemma filter_subnets_fun: "filter_subnets = List.filter"
  by (intro ext) (rule filter_subnets_eq)

lemma narrow_present:
  "narrow constraints subnets = List.filter (\<lambda>x. \<forall>p\<in>set (present constraints). p x) subnets"
  by (auto simp: narrow_def stage_by_name_def stage_by_tag_key_def stage_by_zone_def present_def
      split: option.splits intro!: filter_cong)

lemma byName_loop_single:
  "length (filter (\<lambda>t. aws_StringValue (Key t) = ''Name'') tags) \<le> 1 \<Longrightarrow>
   byName_loop name tags =
     (\<exists>t\<in>set tags. aws_StringValue (Key t) = ''Name'' \<and> aws_StringValue (Value t) = name)"
  by (induction tags) (auto simp: filter_empty_conv)

lemma byName_loop_first:
  "\<forall>t\<in>set pre. aws_StringValue (Key t) \<noteq> ''Name'' \<Longrightarrow>
   aws_StringValue (Key tag) = ''Name'' \<Longrightarrow>
   byName_loop name (pre @ tag # post) = (aws_StringValue (Value tag) = name)"
  by (induction pre) simp_all

text \<open>
  Two further facts of the cache that the specification states: a sweep that ran no
  later than a lookup does not change the lookup, and a lookup that follows a successful
  fetch within the TTL of the store is served from the cache.
\<close>

lemma cache_Get_DeleteExpired:
  "t \<le> now \<Longrightarrow> cache_Get now (cache_DeleteExpired t c) k = cache_Get now c k"
  by (auto simp: cache_Get_def cache_DeleteExpired_def expired_def split: option.splits)

lemma fetch_then_hit:
  assumes "cache_Get now (cache s) (Spec_Cluster_Name provisioner) = None"
    and "ec2api (describeSubnetsInput K provisioner) = Inr out"
    and "now' \<le> later + CacheTTL K"
  shows "getSubnets K ec2api' now' later'
           (snd (getSubnets K ec2api now later s provisioner)) provisioner =
         (Inr (Subnets out), snd (getSubnets K ec2api now later s provisioner))"
  using assms
  by (simp add: getSubnets_miss_ok getSubnets_hit cache_Get_def cache_Set_def expired_def)

subsection \<open>What \<open>append\<close> and \<open>filter\<close> do to the store\<close>

text \<open>
  A heap that extends another leaves every valid slice of the smaller heap as it was.
  Appending to a slice whose array was allocated after \<open>h0\<close> keeps the arrays of \<open>h0\<close>,
  and so does the loop of \<open>filter\<close>, whose result starts without an array.
\<close>

lemma elems_stable:
  assumes "prefix h h'" and "valid h sl"
  shows "valid h' sl \<and> elems h' sl = elems h sl \<and> (\<forall>i. cell h' sl i = cell h sl i)"
proof -
  from assms(1) obtain t where h': "h' = h @ t" by (auto simp: prefix_def)
  have cells: "cell h' sl i = cell h sl i" for i
    using assms(2) by (auto simp: cell_def valid_def h' nth_append split: option.splits)
  have "valid h' sl"
    using assms(2) by (auto simp: valid_def h' nth_append split: option.splits)
  with cells show ?thesis by (simp add: elems_def)
qed

lemma growslice_step:
  assumes "prefix h0 h" and "growslice newcap h result v = (h', r)"
  shows "prefix h0 h' \<and> prefix h h' \<and> valid h' r \<and> fresh h0 r \<and> elems h' r = elems h result @ [v]"
proof -
  let ?c = "max (Suc (len result)) (newcap (cap result))"
  let ?cells = "elems h result @ v # replicate (?c - Suc (len result)) 0"
  from assms(2) have h': "h' = h @ [?cells]"
    and r: "r = \<lparr>array = Some (length h), len = Suc (len result), cap = ?c\<rparr>"
    by (simp_all add: growslice_def Let_def)
  have len: "length (elems h result) = len result" by (simp add: elems_def)
  have "length h0 \<le> length h" using assms(1) by (rule prefix_length_le)
  then have fr: "fresh h0 r" by (simp add: fresh_def r)
  have va: "valid h' r" by (simp add: valid_def r h' len)
  have c: "cell h' r i = (elems h result @ [v]) ! i" if "i < Suc (len result)" for i
  proof -
    from that have "i < ?c" by (simp add: less_max_iff_disj)
    with that show ?thesis
      by (auto simp: cell_def r h' len nth_append nth_Cons less_Suc_eq split: nat.splits)
  qed
  have "elems h' r = elems h result @ [v]"
  proof (intro nth_equalityI)
    show "length (elems h' r) = length (elems h result @ [v])" by (simp add: elems_def r)
  next
    fix i assume "i < length (elems h' r)"
    then have i: "i < Suc (len result)" by (simp add: elems_def r)
    then have "elems h' r ! i = cell h' r i" by (simp add: elems_def r del: upt_Suc)
    with c [OF i] show "elems h' r ! i = (elems h result @ [v]) ! i" by simp
  qed
  with fr va assms(1) show ?thesis by (simp add: h' prefix_prefix)
qed

lemma append_h_step:
  assumes "prefix h0 h" and "valid h result" and "fresh h0 result"
    and "append_h newcap h result v = (h', r)"
  shows "prefix h0 h' \<and> valid h' r \<and> fresh h0 r \<and> elems h' r = elems h result @ [v]"
proof (cases "len result < cap result \<and> array result \<noteq> None")
  case False
  with assms(4) have "growslice newcap h result v = (h', r)"
    by (auto simp: append_h_def split: if_splits option.splits)
  from growslice_step [OF assms(1) this] show ?thesis by simp
next
  case True
  then obtain a where a: "array result = Some a" and lt: "len result < cap result" by auto
  from assms(2) a have ah: "a < length h" and la: "length (h ! a) = cap result"
    by (simp_all add: valid_def)
  from assms(3) a have na: "length h0 \<le> a" by (simp add: fresh_def)
  from assms(4) a lt have h': "h' = h[a := (h ! a)[len result := v]]"
    and r: "r = result\<lparr>len := Suc (len result)\<rparr>"
    by (simp_all add: append_h_def)
  from assms(1) obtain t where t: "h = h0 @ t" by (auto simp: prefix_def)
  have "prefix h0 h'" using na by (simp add: h' t list_update_append)
  moreover have "valid h' r" using ah la lt by (simp add: valid_def r h' a)
  moreover have "fresh h0 r" using na by (simp add: fresh_def r a)
  moreover have "elems h' r = elems h result @ [v]"
  proof (intro nth_equalityI)
    show "length (elems h' r) = length (elems h result @ [v])" by (simp add: elems_def r)
  next
    fix i assume "i < length (elems h' r)"
    then have i: "i < Suc (len result)" by (simp add: elems_def r)
    show "elems h' r ! i = (elems h result @ [v]) ! i"
      using i ah la lt
      by (auto simp: elems_def r cell_def h' a nth_append nth_list_update less_Suc_eq)
  qed
  ultimately show ?thesis by simp
qed

lemma filter_range_step:
  assumes "valid h0 subnets"
  shows "prefix h0 h \<Longrightarrow> valid h result \<Longrightarrow> fresh h0 result \<Longrightarrow>
    filter_range predicate objs newcap subnets is h result = (h', r) \<Longrightarrow>
    prefix h0 h' \<and> valid h' r \<and> fresh h0 r \<and>
    elems h' r = elems h result @ filter (\<lambda>p. predicate (objs p)) (map (cell h0 subnets) is)"
proof (induction "is" arbitrary: h result)
  case Nil
  then show ?case by simp
next
  case (Cons i "is")
  from elems_stable [OF Cons.prems(1) assms] have c: "cell h subnets i = cell h0 subnets i"
    by simp
  show ?case
  proof (cases "predicate (objs (cell h0 subnets i))")
    case False
    with Cons.prems(4) c have "filter_range predicate objs newcap subnets is h result = (h', r)"
      by (simp add: Let_def)
    from Cons.IH [OF Cons.prems(1-3) this] False show ?thesis by simp
  next
    case True
    obtain h1 r1 where ap: "append_h newcap h result (cell h0 subnets i) = (h1, r1)"
      by (cases "append_h newcap h result (cell h0 subnets i)")
    with Cons.prems(4) c True
    have run: "filter_range predicate objs newcap subnets is h1 r1 = (h', r)"
      by (simp add: Let_def)
    from append_h_step [OF Cons.prems(1-3) ap]
    have st: "prefix h0 h1" "valid h1 r1" "fresh h0 r1"
      "elems h1 r1 = elems h result @ [cell h0 subnets i]" by simp_all
    from Cons.IH [OF st(1-3) run] st(4) True show ?thesis by simp
  qed
qed

lemma filter_h_frame:
  assumes "valid h subnets" and "filter_h predicate objs newcap subnets h = (h', r)"
  shows "prefix h h' \<and> valid h' r \<and> fresh h r \<and>
    elems h' r = filter (\<lambda>p. predicate (objs p)) (elems h subnets) \<and>
    map objs (elems h' r) = filter_subnets predicate (map objs (elems h subnets))"
proof -
  have e: "valid h \<lparr>array = None, len = 0, cap = 0\<rparr>" "fresh h \<lparr>array = None, len = 0, cap = 0\<rparr>"
    "elems h \<lparr>array = None, len = 0, cap = 0\<rparr> = []"
    by (simp_all add: valid_def fresh_def elems_def)
  from filter_range_step [OF assms(1) _ e(1,2) assms(2) [unfolded filter_h_def]] e(3)
  have "prefix h h' \<and> valid h' r \<and> fresh h r \<and>
    elems h' r = filter (\<lambda>p. predicate (objs p)) (elems h subnets)"
    by (simp add: elems_def)
  then show ?thesis by (simp add: filter_subnets_eq filter_map comp_def)
qed

lemma fresh_mono: "prefix h h' \<Longrightarrow> fresh h' sl \<Longrightarrow> fresh h sl"
  by (auto simp: fresh_def dest: prefix_length_le split: option.splits)

lemma getSubnets_h_hit:
  "cache_h s (Spec_Cluster_Name provisioner) = Some item \<Longrightarrow> \<not> expired_h now item \<Longrightarrow>
   getSubnets_h K ec2api now later s h provisioner = (Inr (Object_h item), s, h)"
  by (simp add: getSubnets_h_def cache_Get_h_def)

lemma stage_h_step:
  assumes "valid h sl"
    and "(if run then filter_h predicate objs newcap sl h else (h, sl)) = (h', r)"
  shows "prefix h h' \<and> valid h' r \<and>
    map objs (elems h' r) =
      (if run then List.filter predicate (map objs (elems h sl)) else map objs (elems h sl)) \<and>
    (if run then fresh h r else h' = h \<and> r = sl)"
proof (cases run)
  case True
  with assms(2) have "filter_h predicate objs newcap sl h = (h', r)" by simp
  from filter_h_frame [OF assms(1) this] True show ?thesis
    by (simp add: filter_subnets_eq filter_map comp_def)
next
  case False
  with assms show ?thesis by auto
qed

lemma Get_h_hit:
  assumes entry: "cache_h s (Spec_Cluster_Name provisioner) = Some item"
    and unexpired: "\<not> expired_h now item"
    and val: "valid h (Object_h item)"
  obtains h' r where
    "Get_h K objs newcap ec2api now later s h provisioner constraints = (Inr r, s, h')"
    "prefix h h'" "valid h' r"
    "map objs (elems h' r) = narrow constraints (map objs (elems h (Object_h item)))"
    "if SubnetName constraints = None \<and> SubnetTagKey constraints = None \<and> Zones constraints = []
     then r = Object_h item \<and> h' = h else fresh h r"
proof -
  let ?sl = "Object_h item"
  let ?run1 = "SubnetName constraints \<noteq> None"
  let ?run2 = "SubnetTagKey constraints \<noteq> None"
  let ?run3 = "Zones constraints \<noteq> []"
  let ?p1 = "byName (the (SubnetName constraints))"
  let ?p2 = "byTagKey (the (SubnetTagKey constraints))"
  let ?p3 = "byZones (Zones constraints)"
  obtain h1 r1 where s1: "(if ?run1 then filter_h ?p1 objs newcap ?sl h else (h, ?sl)) = (h1, r1)"
    by (cases "if ?run1 then filter_h ?p1 objs newcap ?sl h else (h, ?sl)")
  obtain h2 r2 where s2: "(if ?run2 then filter_h ?p2 objs newcap r1 h1 else (h1, r1)) = (h2, r2)"
    by (cases "if ?run2 then filter_h ?p2 objs newcap r1 h1 else (h1, r1)")
  obtain h3 r3 where s3: "(if ?run3 then filter_h ?p3 objs newcap r2 h2 else (h2, r2)) = (h3, r3)"
    by (cases "if ?run3 then filter_h ?p3 objs newcap r2 h2 else (h2, r2)")
  note f1 = stage_h_step [OF val s1]
  then have v1: "valid h1 r1" by simp
  note f2 = stage_h_step [OF v1 s2]
  then have v2: "valid h2 r2" by simp
  note f3 = stage_h_step [OF v2 s3]
  have get: "Get_h K objs newcap ec2api now later s h provisioner constraints = (Inr r3, s, h3)"
    using s1 s2 s3
    by (auto simp: Get_h_def getSubnets_h_hit [OF entry unexpired] GetSubnetName_def
        GetSubnetTagKey_def aws_StringValue_def split: option.splits if_splits)
  have p: "prefix h h1" "prefix h1 h2" "prefix h2 h3" using f1 f2 f3 by simp_all
  then have p3: "prefix h h3" and p2: "prefix h h2" by (auto intro: prefix_order.trans)
  have contents: "map objs (elems h3 r3) = narrow constraints (map objs (elems h ?sl))"
    using f1 f2 f3
    by (auto simp: narrow_def stage_by_name_def stage_by_tag_key_def stage_by_zone_def
        split: option.splits)
  have fr: "if SubnetName constraints = None \<and> SubnetTagKey constraints = None \<and>
      Zones constraints = [] then r3 = ?sl \<and> h3 = h else fresh h r3"
  proof (cases ?run3)
    case True
    with f3 have "fresh h2 r3" by simp
    with p2 True show ?thesis by (auto dest: fresh_mono)
  next
    case no3: False
    with f3 have e3: "h3 = h2" "r3 = r2" by simp_all
    show ?thesis
    proof (cases ?run2)
      case True
      with f2 have "fresh h1 r2" by simp
      with p(1) True e3 show ?thesis by (auto dest: fresh_mono)
    next
      case no2: False
      with f2 have e2: "h2 = h1" "r2 = r1" by simp_all
      show ?thesis using f1 e2 e3 no2 no3 by (cases ?run1) auto
    qed
  qed
  from that [OF get p3 _ contents fr] f3 show ?thesis by simp
qed

lemma upt3: "[0..<3] = [0, 1, 2]"
  by code_simp

section \<open>The claims\<close>

subsection \<open>C1: the stages of \<open>Get\<close>\<close>

text \<open>
  C1. For every provider state, provisioner and constraints, \<open>Get\<close> returns the error of
  \<open>getSubnets\<close> or narrows the base list of \<open>getSubnets\<close> by the stages by-name,
  by-tag-key and by-zone in this order, each on the output of the one before, a stage
  running only when its constraint is present (name present, tag key present, zone list
  non-empty). With no constraint present, \<open>Get\<close> returns what \<open>getSubnets\<close> returned: the
  base list unchanged, in its order.
\<close>

theorem Get_applies_stages_in_order:
  "Get K ec2api now later s provisioner constraints =
     (case getSubnets K ec2api now later s provisioner of
        (Inl err, s') \<Rightarrow> (Inl err, s')
      | (Inr base, s') \<Rightarrow>
          (Inr (stage_by_zone constraints
                 (stage_by_tag_key constraints (stage_by_name constraints base))), s'))
   \<and> (GetSubnetName constraints = None \<and> GetSubnetTagKey constraints = None \<and>
        Zones constraints = [] \<longrightarrow>
        Get K ec2api now later s provisioner constraints =
          getSubnets K ec2api now later s provisioner)"
proof
  show "Get K ec2api now later s provisioner constraints =
     (case getSubnets K ec2api now later s provisioner of
        (Inl err, s') \<Rightarrow> (Inl err, s')
      | (Inr base, s') \<Rightarrow>
          (Inr (stage_by_zone constraints
                 (stage_by_tag_key constraints (stage_by_name constraints base))), s'))"
    by (simp add: Get_narrow narrow_def split: prod.splits sum.splits)
next
  show "GetSubnetName constraints = None \<and> GetSubnetTagKey constraints = None \<and>
        Zones constraints = [] \<longrightarrow>
        Get K ec2api now later s provisioner constraints =
          getSubnets K ec2api now later s provisioner"
    by (simp add: Get_def split: prod.splits sum.splits)
qed

text \<open>
  On a cached base of three subnets: no constraint returns all three in order, and the
  three constraints together leave the one subnet that passes each stage.
\<close>

theorem Get_applies_stages_in_order_witness:
  "GetSubnetName no_constraints = None \<and> GetSubnetTagKey no_constraints = None \<and>
   Zones no_constraints = [] \<and>
   Get K0 ec2api_ok 0 1 warm_provider prod_cluster no_constraints = (Inr [s1, s2, s3], warm_provider) \<and>
   getSubnets K0 ec2api_ok 0 1 warm_provider prod_cluster = (Inr [s1, s2, s3], warm_provider) \<and>
   Get K0 ec2api_ok 0 1 warm_provider prod_cluster
     \<lparr>SubnetName = Some ''a'', SubnetTagKey = Some ''env'', Zones = [''us-east-1c'']\<rparr> =
     (Inr [s3], warm_provider)"
proof -
  have base: "getSubnets K0 ec2api_ok 0 1 warm_provider prod_cluster = (Inr [s1, s2, s3], warm_provider)"
    by (simp add: getSubnets_def cache_Get_def expired_def warm_provider_def prod_cluster_def)
  have none: "GetSubnetName no_constraints = None \<and> GetSubnetTagKey no_constraints = None \<and>
      Zones no_constraints = []"
    by (simp add: GetSubnetName_def GetSubnetTagKey_def no_constraints_def)
  have stages: "stage_by_zone \<lparr>SubnetName = Some ''a'', SubnetTagKey = Some ''env'', Zones = [''us-east-1c'']\<rparr>
      (stage_by_tag_key \<lparr>SubnetName = Some ''a'', SubnetTagKey = Some ''env'', Zones = [''us-east-1c'']\<rparr>
        (stage_by_name \<lparr>SubnetName = Some ''a'', SubnetTagKey = Some ''env'', Zones = [''us-east-1c'']\<rparr>
          [s1, s2, s3])) = [s3]"
    by (simp add: stage_by_zone_def stage_by_tag_key_def stage_by_name_def byName_def byTagKey_def
        byZones_def aws_StringValue_def s1_def s2_def s3_def)
  have plain: "stage_by_zone no_constraints
      (stage_by_tag_key no_constraints (stage_by_name no_constraints [s1, s2, s3])) = [s1, s2, s3]"
    by (simp add: stage_by_zone_def stage_by_tag_key_def stage_by_name_def no_constraints_def)
  from Get_applies_stages_in_order [of K0 ec2api_ok 0 1 warm_provider prod_cluster no_constraints]
    Get_applies_stages_in_order [of K0 ec2api_ok 0 1 warm_provider prod_cluster
      "\<lparr>SubnetName = Some ''a'', SubnetTagKey = Some ''env'', Zones = [''us-east-1c'']\<rparr>"]
    base none stages plain
  show ?thesis by simp
qed

subsection \<open>C2: a valid cache entry is served without a fetch\<close>

text \<open>
  C2. When the cache holds an entry for the cluster's name that has not expired at the
  instant of the call, \<open>getSubnets\<close> returns the entry's list and \<open>Get\<close> its narrowing, the
  provider's state is unchanged and no request is sent to EC2, whatever EC2 would have
  answered. A second call for a provisioner with the same cluster name, at an instant at
  which the entry has not expired either, observes the same base list: the cluster name
  is the only part of the provisioner the lookup reads.
\<close>

theorem Get_cache_hit:
  assumes "cache s (Spec_Cluster_Name provisioner) = Some item"
    and "\<not> expired now item"
  shows "getSubnets K ec2api now later s provisioner = (Inr (Object item), s)
    \<and> Get K ec2api now later s provisioner constraints =
        (Inr (narrow constraints (Object item)), s)
    \<and> requests (snd (Get K ec2api now later s provisioner constraints)) = requests s
    \<and> (Spec_Cluster_Name provisioner' = Spec_Cluster_Name provisioner \<and> \<not> expired now' item \<longrightarrow>
         getSubnets K ec2api' now' later'
           (snd (Get K ec2api now later s provisioner constraints)) provisioner' =
         (Inr (Object item), s))"
proof -
  have hit: "getSubnets K ec2api now later s provisioner = (Inr (Object item), s)"
    using assms by (simp add: getSubnets_hit cache_Get_valid)
  then have get: "Get K ec2api now later s provisioner constraints =
      (Inr (narrow constraints (Object item)), s)"
    by (simp add: Get_narrow)
  have again: "getSubnets K ec2api' now' later' s provisioner' = (Inr (Object item), s)"
    if "Spec_Cluster_Name provisioner' = Spec_Cluster_Name provisioner" and "\<not> expired now' item"
    using that assms(1) by (simp add: getSubnets_hit cache_Get_valid)
  from hit get again show ?thesis by simp
qed

text \<open>
  An entry expiring at 100 serves a call at 40 and a call at 100, the second for another
  provisioner of the same cluster name; the EC2 answers differ and neither is asked for.
\<close>

theorem Get_cache_hit_witness:
  "cache warm_provider (Spec_Cluster_Name prod_cluster) = Some \<lparr>Object = [s1, s2, s3], Expiration = 100\<rparr> \<and>
   \<not> expired 40 \<lparr>Object = [s1, s2, s3], Expiration = 100\<rparr> \<and>
   \<not> expired 100 \<lparr>Object = [s1, s2, s3], Expiration = 100\<rparr> \<and>
   Spec_Cluster_Name \<lparr>Spec_Cluster_Name = ''prod'', \<dots> = True\<rparr> = Spec_Cluster_Name prod_cluster \<and>
   Get K0 ec2api_cancelled 40 41 warm_provider prod_cluster no_constraints =
     (Inr [s1, s2, s3], warm_provider) \<and>
   requests (snd (Get K0 ec2api_cancelled 40 41 warm_provider prod_cluster no_constraints)) = [] \<and>
   getSubnets K0 ec2api_ok 100 101
     (snd (Get K0 ec2api_cancelled 40 41 warm_provider prod_cluster no_constraints))
     \<lparr>Spec_Cluster_Name = ''prod'', \<dots> = True\<rparr> =
     (Inr [s1, s2, s3], warm_provider)"
proof -
  have entry: "cache warm_provider (Spec_Cluster_Name prod_cluster) =
      Some \<lparr>Object = [s1, s2, s3], Expiration = 100\<rparr>"
    by (simp add: warm_provider_def prod_cluster_def)
  have valid: "\<not> expired 40 \<lparr>Object = [s1, s2, s3], Expiration = 100\<rparr>"
    by (simp add: expired_def)
  have valid': "\<not> expired 100 \<lparr>Object = [s1, s2, s3], Expiration = 100\<rparr>"
    by (simp add: expired_def)
  have same: "Spec_Cluster_Name \<lparr>Spec_Cluster_Name = ''prod'', \<dots> = True\<rparr> = Spec_Cluster_Name prod_cluster"
    by (simp add: prod_cluster_def)
  have narrow: "narrow no_constraints [s1, s2, s3] = [s1, s2, s3]"
    by (simp add: narrow_def stage_by_zone_def stage_by_tag_key_def stage_by_name_def
        no_constraints_def)
  have empty: "requests warm_provider = []"
    by (simp add: warm_provider_def)
  from Get_cache_hit [OF entry valid, of K0 ec2api_cancelled 41 no_constraints
      "\<lparr>Spec_Cluster_Name = ''prod'', \<dots> = True\<rparr>" 100 ec2api_ok 101]
    entry valid valid' same narrow empty
  show ?thesis by (auto simp: prod_cluster_def)
qed

subsection \<open>C3: a failing fetch\<close>

text \<open>
  C3 as stated says that the error of a failing fetch identifies the cluster being
  resolved. It need not: \<open>getSubnets\<close> formats the cause behind the fixed text
  \<open>"describing subnets, "\<close> and reads nothing of the provisioner for the error. With
  the cause below, the errors returned for the clusters \<open>prod\<close> and \<open>dev\<close> are equal,
  and the name \<open>prod\<close> does not occur in the message.
\<close>

theorem Get_error_names_no_cluster:
  "fst (Get K0 ec2api_cancelled 0 1 empty_provider prod_cluster no_constraints) =
     Inl (wrapError ''describing subnets, RequestCanceled: request context canceled''
            ''RequestCanceled: request context canceled'')
   \<and> fst (Get K0 ec2api_cancelled 0 1 empty_provider dev_cluster no_constraints) =
     fst (Get K0 ec2api_cancelled 0 1 empty_provider prod_cluster no_constraints)
   \<and> Spec_Cluster_Name dev_cluster \<noteq> Spec_Cluster_Name prod_cluster
   \<and> \<not> sublist (Spec_Cluster_Name prod_cluster)
         ''describing subnets, RequestCanceled: request context canceled''"
  by (simp add: sublist_Cons_right Get_def getSubnets_def cache_Get_def empty_provider_def ec2api_cancelled_def
      Errorf_describing_subnets_def prod_cluster_def dev_cluster_def Let_def)

text \<open>
  C3, amended. When the cache has no valid entry for the cluster's name and the call to
  EC2 fails with a cause, \<open>Get\<close> returns an error and no subnet list; the error wraps
  the cause, its message being the cause's text behind \<open>"describing subnets, "\<close>, so it
  is determined by the cause alone: any other failing fetch with the same cause, for
  whatever cluster, returns the same error. The one request is recorded and the cache is
  left as it was, so the failed fetch stores no entry.
\<close>

theorem Get_fetch_failure:
  assumes "cache_Get now (cache s) (Spec_Cluster_Name provisioner) = None"
    and "ec2api (describeSubnetsInput K provisioner) = Inl err"
  shows "Get K ec2api now later s provisioner constraints =
      (Inl (wrapError (''describing subnets, '' @ err) err),
       s\<lparr>requests := requests s @ [describeSubnetsInput K provisioner]\<rparr>)
    \<and> cache (snd (Get K ec2api now later s provisioner constraints)) = cache s
    \<and> (cache_Get now' (cache s') (Spec_Cluster_Name provisioner') = None \<and>
         ec2api' (describeSubnetsInput K' provisioner') = Inl err \<longrightarrow>
         fst (Get K' ec2api' now' later' s' provisioner' constraints') =
         fst (Get K ec2api now later s provisioner constraints))"
  using assms
  by (simp add: Get_def getSubnets_miss_err Errorf_describing_subnets_def)

theorem Get_fetch_failure_witness:
  "cache_Get 0 (cache empty_provider) (Spec_Cluster_Name prod_cluster) = None \<and>
   ec2api_cancelled (describeSubnetsInput K0 prod_cluster) =
     Inl ''RequestCanceled: request context canceled'' \<and>
   Get K0 ec2api_cancelled 0 1 empty_provider prod_cluster no_constraints =
     (Inl (wrapError ''describing subnets, RequestCanceled: request context canceled''
             ''RequestCanceled: request context canceled''),
      \<lparr>cache = Map.empty,
       requests = [\<lparr>Filters = [\<lparr>Name = Some ''tag-key'',
                                Values = [Some ''kubernetes.io/cluster/prod'']\<rparr>]\<rparr>]\<rparr>) \<and>
   cache (snd (Get K0 ec2api_cancelled 0 1 empty_provider prod_cluster no_constraints)) =
     cache empty_provider \<and>
   cache_Get 101 (cache warm_provider) (Spec_Cluster_Name dev_cluster) = None \<and>
   ec2api_cancelled (describeSubnetsInput K0 dev_cluster) =
     Inl ''RequestCanceled: request context canceled'' \<and>
   fst (Get K0 ec2api_cancelled 101 102 warm_provider dev_cluster
          \<lparr>SubnetName = Some ''a'', SubnetTagKey = None, Zones = []\<rparr>) =
     Inl (wrapError ''describing subnets, RequestCanceled: request context canceled''
            ''RequestCanceled: request context canceled'')"
proof -
  have miss: "cache_Get 0 (cache empty_provider) (Spec_Cluster_Name prod_cluster) = None"
    by (simp add: cache_Get_def empty_provider_def)
  have fails: "ec2api_cancelled (describeSubnetsInput K0 prod_cluster) =
      Inl ''RequestCanceled: request context canceled''"
    by (simp add: ec2api_cancelled_def)
  have miss': "cache_Get 101 (cache warm_provider) (Spec_Cluster_Name dev_cluster) = None"
    by (simp add: cache_Get_def warm_provider_def dev_cluster_def)
  have fails': "ec2api_cancelled (describeSubnetsInput K0 dev_cluster) =
      Inl ''RequestCanceled: request context canceled''"
    by (simp add: ec2api_cancelled_def)
  have input: "describeSubnetsInput K0 prod_cluster =
      \<lparr>Filters = [\<lparr>Name = Some ''tag-key'', Values = [Some ''kubernetes.io/cluster/prod'']\<rparr>]\<rparr>"
    by (simp add: describeSubnetsInput_def K0_def prod_cluster_def aws_String_def Sprintf_def)
  from Get_fetch_failure [where now = 0 and s = empty_provider and provisioner = prod_cluster
      and ec2api = ec2api_cancelled and K = K0 and later = 1 and constraints = no_constraints
      and now' = 101 and s' = warm_provider and provisioner' = dev_cluster
      and ec2api' = ec2api_cancelled and K' = K0 and later' = 102
      and constraints' = "\<lparr>SubnetName = Some ''a'', SubnetTagKey = None, Zones = []\<rparr>",
      OF miss fails] miss fails miss' fails' input
  show ?thesis by (auto simp: empty_provider_def)
qed

subsection \<open>C4: the by-name predicate\<close>

text \<open>
  C4. \<open>byName\<close> holds iff the first tag of the subnet whose key is \<open>"Name"\<close> exists and
  has the requested name as its value. That tag alone decides, whatever tags follow it:
  a later \<open>"Name"\<close> tag with the requested value does not make the predicate true.
  For a subnet with at most one \<open>"Name"\<close> tag this is: the subnet has a tag with key
  \<open>"Name"\<close> whose value equals the requested name. Keys and values are read through
  \<open>aws.StringValue\<close>.
\<close>

theorem byName_first_Name_tag_decides:
  "byName name subnet =
     (case first_Name_tag subnet of
        None \<Rightarrow> False
      | Some tag \<Rightarrow> aws_StringValue (Value tag) = name)
   \<and> (Tags subnet = pre @ tag # post \<and>
        (\<forall>t\<in>set pre. aws_StringValue (Key t) \<noteq> ''Name'') \<and>
        aws_StringValue (Key tag) = ''Name'' \<longrightarrow>
        byName name subnet = (aws_StringValue (Value tag) = name))
   \<and> (length (filter (\<lambda>t. aws_StringValue (Key t) = ''Name'') (Tags subnet)) \<le> 1 \<longrightarrow>
        byName name subnet =
          (\<exists>t\<in>set (Tags subnet).
             aws_StringValue (Key t) = ''Name'' \<and> aws_StringValue (Value t) = name))"
  by (simp add: byName_def first_Name_tag_def byName_loop_find [symmetric] byName_loop_first
      byName_loop_single)

text \<open>
  The subnet \<open>s3\<close> has the tags \<open>env\<close>, \<open>Name = a\<close>, \<open>Name = b\<close> in this order: it
  passes for the name \<open>a\<close> and fails for the name \<open>b\<close>.
\<close>

theorem byName_first_Name_tag_decides_witness:
  "Tags s3 = [\<lparr>Key = Some ''env'', Value = None\<rparr>] @
             \<lparr>Key = Some ''Name'', Value = Some ''a''\<rparr> # [\<lparr>Key = Some ''Name'', Value = Some ''b''\<rparr>] \<and>
   aws_StringValue (Key \<lparr>Key = Some ''env'', Value = None\<rparr>) \<noteq> ''Name'' \<and>
   aws_StringValue (Key \<lparr>Key = Some ''Name'', Value = Some ''a''\<rparr>) = ''Name'' \<and>
   byName ''a'' s3 \<and> \<not> byName ''b'' s3 \<and>
   length (filter (\<lambda>t. aws_StringValue (Key t) = ''Name'') (Tags s1)) \<le> 1 \<and>
   byName ''a'' s1 \<and> \<not> byName ''b'' s1"
proof -
  have tags: "Tags s3 = [\<lparr>Key = Some ''env'', Value = None\<rparr>] @
      \<lparr>Key = Some ''Name'', Value = Some ''a''\<rparr> # [\<lparr>Key = Some ''Name'', Value = Some ''b''\<rparr>]"
    by (simp add: s3_def)
  have pre: "\<forall>t\<in>set [\<lparr>Key = Some ''env'', Value = None\<rparr>]. aws_StringValue (Key t) \<noteq> ''Name''"
    by (simp add: aws_StringValue_def)
  have key: "aws_StringValue (Key \<lparr>Key = Some ''Name'', Value = Some ''a''\<rparr>) = ''Name''"
    by (simp add: aws_StringValue_def)
  have one: "length (filter (\<lambda>t. aws_StringValue (Key t) = ''Name'') (Tags s1)) \<le> 1"
    by (simp add: s1_def)
  from byName_first_Name_tag_decides [of "''a''" s3 "[\<lparr>Key = Some ''env'', Value = None\<rparr>]"
      "\<lparr>Key = Some ''Name'', Value = Some ''a''\<rparr>" "[\<lparr>Key = Some ''Name'', Value = Some ''b''\<rparr>]"]
    byName_first_Name_tag_decides [of "''b''" s3 "[\<lparr>Key = Some ''env'', Value = None\<rparr>]"
      "\<lparr>Key = Some ''Name'', Value = Some ''a''\<rparr>" "[\<lparr>Key = Some ''Name'', Value = Some ''b''\<rparr>]"]
    byName_first_Name_tag_decides [of "''a''" s1]
    byName_first_Name_tag_decides [of "''b''" s1]
    tags pre key one
  show ?thesis by (auto simp: aws_StringValue_def first_Name_tag_def s1_def s3_def)
qed

subsection \<open>C5: the narrowing function\<close>

text \<open>
  C5. For every predicate and every list, \<open>filter\<close> returns the elements that satisfy
  the predicate, each as often as it occurs and in the order of the input: the result is
  the library's list filter, a subsequence of the input. It is a total function with a
  list as its only result, and the result is empty exactly when no element satisfies the
  predicate.
\<close>

theorem filter_subnets_sublist:
  "filter_subnets predicate subnets = List.filter predicate subnets
   \<and> subseq (filter_subnets predicate subnets) subnets
   \<and> set (filter_subnets predicate subnets) = {subnet \<in> set subnets. predicate subnet}
   \<and> (filter_subnets predicate subnets = [] \<longleftrightarrow> (\<forall>subnet\<in>set subnets. \<not> predicate subnet))"
  by (simp add: filter_subnets_eq filter_empty_conv)

theorem filter_subnets_sublist_witness:
  "filter_subnets (byName ''b'') [s1, s2, s3] = [s2] \<and>
   subseq [s2] [s1, s2, s3] \<and>
   \<not> byName ''c'' s1 \<and> \<not> byName ''c'' s2 \<and> \<not> byName ''c'' s3 \<and>
   filter_subnets (byName ''c'') [s1, s2, s3] = []"
proof -
  have b: "List.filter (byName ''b'') [s1, s2, s3] = [s2]"
    by (simp add: byName_def aws_StringValue_def s1_def s2_def s3_def)
  have c: "\<forall>subnet\<in>set [s1, s2, s3]. \<not> byName ''c'' subnet"
    by (simp add: byName_def aws_StringValue_def s1_def s2_def s3_def)
  from filter_subnets_sublist [of "byName ''b''" "[s1, s2, s3]"]
    filter_subnets_sublist [of "byName ''c''" "[s1, s2, s3]"] b c
  show ?thesis by simp
qed

subsection \<open>C6: the order of the stages does not matter\<close>

text \<open>
  C6. Let \<open>getSubnets\<close> return the base list, and let \<open>ps\<close> be any list of exactly the
  predicates of the constraints that are present, in any order and with any repetition.
  Narrowing the base by the predicates of \<open>ps\<close> one after the other gives the result of
  \<open>Get\<close>, and its elements are the subnets of the base that satisfy every present
  predicate. Two applications of \<open>filter\<close> commute.
\<close>

theorem narrowing_order_independent:
  assumes "getSubnets K ec2api now later s provisioner = (Inr base, s')"
    and "set ps = set (present constraints)"
  shows "Get K ec2api now later s provisioner constraints = (Inr (fold filter_subnets ps base), s')
    \<and> set (fold filter_subnets ps base) =
        {subnet \<in> set base. \<forall>p\<in>set (present constraints). p subnet}
    \<and> filter_subnets p (filter_subnets q subnets) = filter_subnets q (filter_subnets p subnets)"
proof -
  have "fold filter_subnets ps base = narrow constraints base"
    using assms(2) by (simp add: filter_subnets_fun fold_filter narrow_present)
  moreover have "Get K ec2api now later s provisioner constraints =
      (Inr (narrow constraints base), s')"
    using assms(1) by (simp add: Get_narrow)
  moreover have "set (narrow constraints base) =
      {subnet \<in> set base. \<forall>p\<in>set (present constraints). p subnet}"
    by (simp add: narrow_present)
  moreover have "filter_subnets p (filter_subnets q subnets) =
      filter_subnets q (filter_subnets p subnets)"
    by (simp add: filter_subnets_eq conj_commute)
  ultimately show ?thesis by simp
qed

text \<open>The three stages in the reverse of the order of \<open>Get\<close>.\<close>

theorem narrowing_order_independent_witness:
  "getSubnets K0 ec2api_ok 0 1 warm_provider prod_cluster = (Inr [s1, s2, s3], warm_provider) \<and>
   set [byZones [''us-east-1c'', ''us-east-1a''], byTagKey ''Name'', byName ''a''] =
     set (present \<lparr>SubnetName = Some ''a'', SubnetTagKey = Some ''Name'',
                   Zones = [''us-east-1c'', ''us-east-1a'']\<rparr>) \<and>
   Get K0 ec2api_ok 0 1 warm_provider prod_cluster
     \<lparr>SubnetName = Some ''a'', SubnetTagKey = Some ''Name'',
      Zones = [''us-east-1c'', ''us-east-1a'']\<rparr> =
     (Inr (filter_subnets (byName ''a'') (filter_subnets (byTagKey ''Name'')
            (filter_subnets (byZones [''us-east-1c'', ''us-east-1a'']) [s1, s2, s3]))),
      warm_provider) \<and>
   filter_subnets (byName ''a'') (filter_subnets (byTagKey ''Name'')
     (filter_subnets (byZones [''us-east-1c'', ''us-east-1a'']) [s1, s2, s3])) = [s1, s3]"
proof -
  have base: "getSubnets K0 ec2api_ok 0 1 warm_provider prod_cluster =
      (Inr [s1, s2, s3], warm_provider)"
    by (simp add: getSubnets_def cache_Get_def expired_def warm_provider_def prod_cluster_def)
  have perm: "set [byZones [''us-east-1c'', ''us-east-1a''], byTagKey ''Name'', byName ''a''] =
      set (present \<lparr>SubnetName = Some ''a'', SubnetTagKey = Some ''Name'',
                    Zones = [''us-east-1c'', ''us-east-1a'']\<rparr>)"
    by (auto simp: present_def)
  have val: "filter_subnets (byName ''a'') (filter_subnets (byTagKey ''Name'')
      (filter_subnets (byZones [''us-east-1c'', ''us-east-1a'']) [s1, s2, s3])) = [s1, s3]"
    by (simp add: filter_subnets_def byName_def byTagKey_def byZones_def aws_StringValue_def
        s1_def s2_def s3_def)
  from narrowing_order_independent [OF base perm] base perm val
  show ?thesis by simp
qed

subsection \<open>C7: the by-zone predicate and the empty zone list\<close>

text \<open>
  C7. \<open>byZones\<close> holds iff the subnet's availability zone, read through
  \<open>aws.StringValue\<close>, is one of the requested zones. With an empty zone list \<open>Get\<close>
  runs no zone stage: its result is the output of the by-tag-key stage on the by-name
  stage. The guard is what makes the empty list mean no restriction, since narrowing by
  \<open>byZones\<close> of the empty list keeps nothing.
\<close>

theorem byZones_membership:
  "byZones zones subnet = (aws_StringValue (AvailabilityZone subnet) \<in> set zones)
   \<and> filter_subnets (byZones []) subnets = []
   \<and> (Zones constraints = [] \<longrightarrow>
        Get K ec2api now later s provisioner constraints =
          (case getSubnets K ec2api now later s provisioner of
             (Inl err, s') \<Rightarrow> (Inl err, s')
           | (Inr base, s') \<Rightarrow>
               (Inr (stage_by_tag_key constraints (stage_by_name constraints base)), s')))"
  by (simp add: byZones_def byZones_loop_iff filter_subnets_eq Get_narrow narrow_def
      stage_by_zone_def split: prod.splits sum.splits)

theorem byZones_membership_witness:
  "Zones \<lparr>SubnetName = None, SubnetTagKey = Some ''Name'', Zones = []\<rparr> = [] \<and>
   Get K0 ec2api_ok 0 1 warm_provider prod_cluster
     \<lparr>SubnetName = None, SubnetTagKey = Some ''Name'', Zones = []\<rparr> =
     (Inr [s1, s2, s3], warm_provider) \<and>
   byZones [''us-east-1a'', ''us-east-1b''] s2 \<and> \<not> byZones [''us-east-1a'', ''us-east-1b''] s3"
proof -
  have base: "getSubnets K0 ec2api_ok 0 1 warm_provider prod_cluster =
      (Inr [s1, s2, s3], warm_provider)"
    by (simp add: getSubnets_def cache_Get_def expired_def warm_provider_def prod_cluster_def)
  have stages: "stage_by_tag_key \<lparr>SubnetName = None, SubnetTagKey = Some ''Name'', Zones = []\<rparr>
      (stage_by_name \<lparr>SubnetName = None, SubnetTagKey = Some ''Name'', Zones = []\<rparr> [s1, s2, s3]) =
      [s1, s2, s3]"
    by (simp add: stage_by_tag_key_def stage_by_name_def byTagKey_def aws_StringValue_def
        s1_def s2_def s3_def)
  have zone2: "aws_StringValue (AvailabilityZone s2) = ''us-east-1b''"
    by (simp add: aws_StringValue_def s2_def)
  have zone3: "aws_StringValue (AvailabilityZone s3) = ''us-east-1c''"
    by (simp add: aws_StringValue_def s3_def)
  from byZones_membership [of "[''us-east-1a'', ''us-east-1b'']" s2 "[]"
      "\<lparr>SubnetName = None, SubnetTagKey = Some ''Name'', Zones = []\<rparr>"
      K0 ec2api_ok 0 1 warm_provider prod_cluster]
    byZones_membership [of "[''us-east-1a'', ''us-east-1b'']" s3 "[]"
      "\<lparr>SubnetName = None, SubnetTagKey = Some ''Name'', Zones = []\<rparr>"
      K0 ec2api_ok 0 1 warm_provider prod_cluster]
    base stages zone2 zone3
  show ?thesis by simp
qed

subsection \<open>C8: the by-tag-key predicate\<close>

text \<open>
  C8. \<open>byTagKey\<close> holds iff the subnet has a tag whose key, read through
  \<open>aws.StringValue\<close>, equals the requested key. The values of the tags play no part:
  replacing them in any way leaves the predicate as it was.
\<close>

theorem byTagKey_iff_key_present:
  "byTagKey tagKey subnet = (\<exists>tag\<in>set (Tags subnet). aws_StringValue (Key tag) = tagKey)
   \<and> byTagKey tagKey (subnet\<lparr>Tags := map (\<lambda>tag. tag\<lparr>Value := v tag\<rparr>) (Tags subnet)\<rparr>) =
       byTagKey tagKey subnet"
  by (simp add: byTagKey_def byTagKey_loop_iff)

theorem byTagKey_iff_key_present_witness:
  "byTagKey ''env'' s3 \<and> byTagKey ''Name'' s3 \<and> \<not> byTagKey ''env'' s1 \<and> \<not> byTagKey ''a'' s1"
proof -
  have tags3: "Tags s3 = [\<lparr>Key = Some ''env'', Value = None\<rparr>,
      \<lparr>Key = Some ''Name'', Value = Some ''a''\<rparr>, \<lparr>Key = Some ''Name'', Value = Some ''b''\<rparr>]"
    by (simp add: s3_def)
  have tags1: "Tags s1 = [\<lparr>Key = Some ''Name'', Value = Some ''a''\<rparr>]"
    by (simp add: s1_def)
  from byTagKey_iff_key_present [of "''env''" s3] byTagKey_iff_key_present [of "''Name''" s3]
    byTagKey_iff_key_present [of "''env''" s1] byTagKey_iff_key_present [of "''a''" s1]
    tags3 tags1
  show ?thesis by (simp add: aws_StringValue_def)
qed

subsection \<open>C9: the discovery filter\<close>

text \<open>
  C9. On a cache miss the request \<open>Get\<close> makes of EC2 holds one filter, named
  \<open>tag-key\<close>, with one value: the cluster name substituted into \<open>ClusterTagKeyFormat\<close>.
  The answer of EC2 to this request, and to no other, decides what \<open>Get\<close> returns: its
  error is that answer's cause wrapped, its list the narrowing of that answer's subnets,
  which are also what the cache then holds; the request is the one recorded. Two fetches
  for the same cluster name make the same request, whatever the instants, the provider
  states and the rest of the provisioners are, and return the same when EC2 answers it
  the same.
\<close>

theorem discovery_filter_from_cluster_name:
  assumes "cache_Get now (cache s) (Spec_Cluster_Name provisioner) = None"
  shows "describeSubnetsInput K provisioner =
      \<lparr>Filters =
         [\<lparr>Name = Some ''tag-key'',
           Values = [Some (fst (ClusterTagKeyFormat K) @ Spec_Cluster_Name provisioner @
                           snd (ClusterTagKeyFormat K))]\<rparr>]\<rparr>
    \<and> Get K ec2api now later s provisioner constraints =
      (case ec2api (describeSubnetsInput K provisioner) of
         Inl err \<Rightarrow>
           (Inl (wrapError (''describing subnets, '' @ err) err),
            \<lparr>cache = cache s,
              requests = requests s @ [describeSubnetsInput K provisioner]\<rparr>)
       | Inr out \<Rightarrow>
           (Inr (narrow constraints (Subnets out)),
            \<lparr>cache = cache_Set later (cache s) (Spec_Cluster_Name provisioner) (Subnets out)
                       (CacheTTL K),
              requests = requests s @ [describeSubnetsInput K provisioner]\<rparr>))
    \<and> (cache_Get now' (cache s') (Spec_Cluster_Name provisioner') = None \<and>
         Spec_Cluster_Name provisioner' = Spec_Cluster_Name provisioner \<and>
         ec2api' (describeSubnetsInput K provisioner) =
           ec2api (describeSubnetsInput K provisioner) \<longrightarrow>
         describeSubnetsInput K provisioner' = describeSubnetsInput K provisioner \<and>
         fst (Get K ec2api' now' later' s' provisioner' constraints) =
           fst (Get K ec2api now later s provisioner constraints))"
proof -
  have miss: "Get K e t u z q constraints =
      (case e (describeSubnetsInput K q) of
         Inl err \<Rightarrow>
           (Inl (wrapError (''describing subnets, '' @ err) err),
            \<lparr>cache = cache z, requests = requests z @ [describeSubnetsInput K q]\<rparr>)
       | Inr out \<Rightarrow>
           (Inr (narrow constraints (Subnets out)),
            \<lparr>cache = cache_Set u (cache z) (Spec_Cluster_Name q) (Subnets out) (CacheTTL K),
              requests = requests z @ [describeSubnetsInput K q]\<rparr>))"
    if "cache_Get t (cache z) (Spec_Cluster_Name q) = None"
    for e t u z and q :: "'c Provisioner_scheme"
    using that
    by (cases "e (describeSubnetsInput K q)")
      (simp_all add: Get_narrow getSubnets_miss_err getSubnets_miss_ok
        Errorf_describing_subnets_def)
  have same: "describeSubnetsInput K provisioner' = describeSubnetsInput K provisioner"
    if "Spec_Cluster_Name provisioner' = Spec_Cluster_Name provisioner"
    using that by (simp add: describeSubnetsInput_def)
  show ?thesis
  proof (intro conjI impI)
    show "describeSubnetsInput K provisioner =
      \<lparr>Filters =
         [\<lparr>Name = Some ''tag-key'',
           Values = [Some (fst (ClusterTagKeyFormat K) @ Spec_Cluster_Name provisioner @
                           snd (ClusterTagKeyFormat K))]\<rparr>]\<rparr>"
      by (simp add: describeSubnetsInput_def aws_String_def Sprintf_def)
  next
    show "Get K ec2api now later s provisioner constraints =
      (case ec2api (describeSubnetsInput K provisioner) of
         Inl err \<Rightarrow>
           (Inl (wrapError (''describing subnets, '' @ err) err),
            \<lparr>cache = cache s,
              requests = requests s @ [describeSubnetsInput K provisioner]\<rparr>)
       | Inr out \<Rightarrow>
           (Inr (narrow constraints (Subnets out)),
            \<lparr>cache = cache_Set later (cache s) (Spec_Cluster_Name provisioner) (Subnets out)
                       (CacheTTL K),
              requests = requests s @ [describeSubnetsInput K provisioner]\<rparr>))"
      by (rule miss [OF assms])
  next
    assume *: "cache_Get now' (cache s') (Spec_Cluster_Name provisioner') = None \<and>
         Spec_Cluster_Name provisioner' = Spec_Cluster_Name provisioner \<and>
         ec2api' (describeSubnetsInput K provisioner) =
           ec2api (describeSubnetsInput K provisioner)"
    then show "describeSubnetsInput K provisioner' = describeSubnetsInput K provisioner"
      by (simp add: same)
    from * have "cache_Get now' (cache s') (Spec_Cluster_Name provisioner') = None"
      by (rule conjunct1)
    from miss [OF this, of ec2api' later'] miss [OF assms, of ec2api later] *
    show "fst (Get K ec2api' now' later' s' provisioner' constraints) =
           fst (Get K ec2api now later s provisioner constraints)"
      by (simp add: same split: sum.splits)
  qed
qed

text \<open>
  The EC2 of this example answers the request for the cluster \<open>prod\<close> with two subnets
  and a request without filters with three.
\<close>

theorem discovery_filter_from_cluster_name_witness:
  "cache_Get 0 (cache empty_provider) (Spec_Cluster_Name prod_cluster) = None \<and>
   describeSubnetsInput K0 prod_cluster =
     \<lparr>Filters = [\<lparr>Name = Some ''tag-key'', Values = [Some ''kubernetes.io/cluster/prod'']\<rparr>]\<rparr> \<and>
   ec2api_tagged (describeSubnetsInput K0 prod_cluster) = Inr \<lparr>Subnets = [s1, s2]\<rparr> \<and>
   ec2api_tagged \<lparr>Filters = []\<rparr> = Inr \<lparr>Subnets = [s1, s2, s3]\<rparr> \<and>
   Get K0 ec2api_tagged 0 1 empty_provider prod_cluster no_constraints =
     (Inr [s1, s2],
      \<lparr>cache = [''prod'' \<mapsto> \<lparr>Object = [s1, s2], Expiration = 61\<rparr>],
       requests = [\<lparr>Filters = [\<lparr>Name = Some ''tag-key'',
                                Values = [Some ''kubernetes.io/cluster/prod'']\<rparr>]\<rparr>]\<rparr>) \<and>
   cache_Get 101 (cache warm_provider) (Spec_Cluster_Name prod_cluster) = None \<and>
   fst (Get K0 ec2api_ok 101 102 warm_provider prod_cluster no_constraints) = Inr [s1, s2]"
proof -
  have miss: "cache_Get 0 (cache empty_provider) (Spec_Cluster_Name prod_cluster) = None"
    by (simp add: cache_Get_def empty_provider_def)
  have miss': "cache_Get 101 (cache warm_provider) (Spec_Cluster_Name prod_cluster) = None"
    by (simp add: cache_Get_def expired_def warm_provider_def prod_cluster_def)
  have format: "fst (ClusterTagKeyFormat K0) @ Spec_Cluster_Name prod_cluster @
      snd (ClusterTagKeyFormat K0) = ''kubernetes.io/cluster/prod''"
    by (simp add: K0_def prod_cluster_def)
  have tagged: "ec2api_tagged
      \<lparr>Filters = [\<lparr>Name = Some ''tag-key'', Values = [Some ''kubernetes.io/cluster/prod'']\<rparr>]\<rparr> =
      Inr \<lparr>Subnets = [s1, s2]\<rparr>"
    by (simp add: ec2api_tagged_def)
  have untagged: "ec2api_tagged \<lparr>Filters = []\<rparr> = Inr \<lparr>Subnets = [s1, s2, s3]\<rparr>"
    by (simp add: ec2api_tagged_def)
  have ok: "ec2api_ok
      \<lparr>Filters = [\<lparr>Name = Some ''tag-key'', Values = [Some ''kubernetes.io/cluster/prod'']\<rparr>]\<rparr> =
      Inr \<lparr>Subnets = [s1, s2]\<rparr>"
    by (simp add: ec2api_ok_def)
  have narrow: "narrow no_constraints [s1, s2] = [s1, s2]"
    by (simp add: narrow_def stage_by_zone_def stage_by_tag_key_def stage_by_name_def
        no_constraints_def)
  have stored: "cache_Set 1 (cache empty_provider) (Spec_Cluster_Name prod_cluster) [s1, s2]
      (CacheTTL K0) = [''prod'' \<mapsto> \<lparr>Object = [s1, s2], Expiration = 61\<rparr>]"
    by (simp add: cache_Set_def empty_provider_def prod_cluster_def K0_def)
  have empty: "requests empty_provider = []" "cache empty_provider = Map.empty"
    by (simp_all add: empty_provider_def)
  from discovery_filter_from_cluster_name [where now = 0 and s = empty_provider
      and provisioner = prod_cluster and K = K0 and ec2api = ec2api_tagged and later = 1
      and constraints = no_constraints and now' = 101 and s' = warm_provider
      and provisioner' = prod_cluster and ec2api' = ec2api_ok and later' = 102, OF miss]
    miss miss' format tagged untagged ok narrow stored empty
  show ?thesis by auto
qed

subsection \<open>C10: narrowing leaves the cached base alone\<close>

text \<open>
  C10, in the store. \<open>filter\<close> leaves every array of the heap it is given as it was:
  the heap it returns extends that heap, the elements of its input read as before, and
  its result is a valid slice whose array, if it has one, was allocated by this call.
  A \<open>Get\<close> served from an unexpired cache entry returns the provider's state as it
  found it and a heap in which the cached slice still reads as before; its result reads
  as the narrowing of the cached base. When a stage ran, the array of the result was
  allocated by this call; when no constraint is present, the result is the cached slice
  header itself and the heap is the same. A later \<open>Get\<close> for the same cluster name, at
  an instant at which the entry has not expired, returns the narrowing of the full
  cached base by its own constraints, whatever the earlier call narrowed by.
\<close>

theorem Get_h_leaves_cached_slice:
  "(cache_h s (Spec_Cluster_Name provisioner) = Some item \<and> \<not> expired_h now item \<and>
    valid h (Object_h item) \<longrightarrow>
    (case Get_h K objs newcap ec2api now later s h provisioner constraints of
       (res, s', h') \<Rightarrow>
         s' = s \<and> prefix h h' \<and> valid h' (Object_h item) \<and>
         elems h' (Object_h item) = elems h (Object_h item) \<and>
         (case res of
            Inl err \<Rightarrow> False
          | Inr r \<Rightarrow>
              valid h' r \<and>
              map objs (elems h' r) = narrow constraints (map objs (elems h (Object_h item))) \<and>
              (if SubnetName constraints = None \<and> SubnetTagKey constraints = None \<and>
                  Zones constraints = []
               then r = Object_h item \<and> h' = h
               else fresh h r)) \<and>
         (\<not> expired_h now' item \<and>
          Spec_Cluster_Name provisioner' = Spec_Cluster_Name provisioner \<longrightarrow>
          (case Get_h K objs newcap' ec2api' now' later' s' h' provisioner' constraints' of
             (res', s'', h'') \<Rightarrow>
               s'' = s \<and> elems h'' (Object_h item) = elems h (Object_h item) \<and>
               (case res' of
                  Inl err \<Rightarrow> False
                | Inr r' \<Rightarrow>
                    map objs (elems h'' r') =
                      narrow constraints' (map objs (elems h (Object_h item))))))))
   \<and> (valid h subnets \<longrightarrow>
        (case filter_h predicate objs newcap subnets h of
           (h', result) \<Rightarrow>
             prefix h h' \<and> fresh h result \<and> valid h' result \<and>
             elems h' subnets = elems h subnets \<and>
             map objs (elems h' result) = filter_subnets predicate (map objs (elems h subnets))))"
proof (intro conjI impI)
  assume hyp: "cache_h s (Spec_Cluster_Name provisioner) = Some item \<and> \<not> expired_h now item \<and>
    valid h (Object_h item)"
  then have entry: "cache_h s (Spec_Cluster_Name provisioner) = Some item"
    and unexpired: "\<not> expired_h now item" and val: "valid h (Object_h item)"
    by simp_all
  obtain h' r where first:
    "Get_h K objs newcap ec2api now later s h provisioner constraints = (Inr r, s, h')"
    "prefix h h'" "valid h' r"
    "map objs (elems h' r) = narrow constraints (map objs (elems h (Object_h item)))"
    "if SubnetName constraints = None \<and> SubnetTagKey constraints = None \<and> Zones constraints = []
     then r = Object_h item \<and> h' = h else fresh h r"
    by (rule Get_h_hit [OF entry unexpired val])
  note stable = elems_stable [OF first(2) val]
  have later: "case Get_h K objs newcap' ec2api' now' later' s h' provisioner' constraints' of
      (res', s'', h'') \<Rightarrow>
        s'' = s \<and> elems h'' (Object_h item) = elems h (Object_h item) \<and>
        (case res' of
           Inl err \<Rightarrow> False
         | Inr r' \<Rightarrow>
             map objs (elems h'' r') =
               narrow constraints' (map objs (elems h (Object_h item))))"
    if again: "\<not> expired_h now' item \<and>
      Spec_Cluster_Name provisioner' = Spec_Cluster_Name provisioner"
  proof -
    from again entry have entry': "cache_h s (Spec_Cluster_Name provisioner') = Some item"
      and unexpired': "\<not> expired_h now' item" by simp_all
    from stable have val': "valid h' (Object_h item)" by simp
    obtain h'' r' where second:
      "Get_h K objs newcap' ec2api' now' later' s h' provisioner' constraints' = (Inr r', s, h'')"
      "prefix h' h''"
      "map objs (elems h'' r') = narrow constraints' (map objs (elems h' (Object_h item)))"
      by (rule Get_h_hit [OF entry' unexpired' val'])
    from elems_stable [OF second(2) val'] stable
    have "elems h'' (Object_h item) = elems h (Object_h item)" by simp
    with second stable show ?thesis by simp
  qed
  from first stable later
  show "case Get_h K objs newcap ec2api now later s h provisioner constraints of
       (res, s', h') \<Rightarrow>
         s' = s \<and> prefix h h' \<and> valid h' (Object_h item) \<and>
         elems h' (Object_h item) = elems h (Object_h item) \<and>
         (case res of
            Inl err \<Rightarrow> False
          | Inr r \<Rightarrow>
              valid h' r \<and>
              map objs (elems h' r) = narrow constraints (map objs (elems h (Object_h item))) \<and>
              (if SubnetName constraints = None \<and> SubnetTagKey constraints = None \<and>
                  Zones constraints = []
               then r = Object_h item \<and> h' = h
               else fresh h r)) \<and>
         (\<not> expired_h now' item \<and>
          Spec_Cluster_Name provisioner' = Spec_Cluster_Name provisioner \<longrightarrow>
          (case Get_h K objs newcap' ec2api' now' later' s' h' provisioner' constraints' of
             (res', s'', h'') \<Rightarrow>
               s'' = s \<and> elems h'' (Object_h item) = elems h (Object_h item) \<and>
               (case res' of
                  Inl err \<Rightarrow> False
                | Inr r' \<Rightarrow>
                    map objs (elems h'' r') =
                      narrow constraints' (map objs (elems h (Object_h item))))))"
    by simp
next
  assume val: "valid h subnets"
  obtain h' result where run: "filter_h predicate objs newcap subnets h = (h', result)"
    by (cases "filter_h predicate objs newcap subnets h")
  from filter_h_frame [OF val run] have fr: "prefix h h'" "fresh h result" "valid h' result"
    "map objs (elems h' result) = filter_subnets predicate (map objs (elems h subnets))"
    by blast+
  from elems_stable [OF fr(1) val] have "elems h' subnets = elems h subnets" by simp
  with fr run show "case filter_h predicate objs newcap subnets h of
           (h', result) \<Rightarrow>
             prefix h h' \<and> fresh h result \<and> valid h' result \<and>
             elems h' subnets = elems h subnets \<and>
             map objs (elems h' result) = filter_subnets predicate (map objs (elems h subnets))"
    by simp
qed

text \<open>
  The cached array holds pointers to \<open>s1\<close>, \<open>s2\<close>, \<open>s3\<close>. Narrowing by the name \<open>a\<close>
  allocates two arrays behind it, of one and of two cells, and returns the second; the
  call after it, without constraints, returns the cached header and reads all three.
\<close>

theorem Get_h_leaves_cached_slice_witness:
  "cache_h warm_provider_h (Spec_Cluster_Name prod_cluster) =
     Some \<lparr>Object_h = base0, Expiration_h = 100\<rparr> \<and>
   \<not> expired_h 40 \<lparr>Object_h = base0, Expiration_h = 100\<rparr> \<and>
   \<not> expired_h 50 \<lparr>Object_h = base0, Expiration_h = 100\<rparr> \<and>
   valid heap0 base0 \<and>
   Get_h K0 objs0 double ec2api_cancelled_h 40 41 warm_provider_h heap0 prod_cluster
     \<lparr>SubnetName = Some ''a'', SubnetTagKey = None, Zones = []\<rparr> =
     (Inr \<lparr>array = Some 2, len = 2, cap = 2\<rparr>, warm_provider_h, [[1, 2, 3], [1], [1, 3]]) \<and>
   prefix heap0 [[1, 2, 3], [1], [1, 3]] \<and>
   fresh heap0 \<lparr>array = Some 2, len = 2, cap = 2\<rparr> \<and>
   elems [[1, 2, 3], [1], [1, 3]] base0 = elems heap0 base0 \<and>
   map objs0 (elems [[1, 2, 3], [1], [1, 3]] \<lparr>array = Some 2, len = 2, cap = 2\<rparr>) = [s1, s3] \<and>
   Get_h K0 objs0 double ec2api_cancelled_h 50 51 warm_provider_h [[1, 2, 3], [1], [1, 3]]
     prod_cluster no_constraints =
     (Inr base0, warm_provider_h, [[1, 2, 3], [1], [1, 3]]) \<and>
   map objs0 (elems [[1, 2, 3], [1], [1, 3]] base0) = [s1, s2, s3] \<and>
   filter_h (byName ''b'') objs0 double base0 heap0 =
     ([[1, 2, 3], [2]], \<lparr>array = Some 1, len = 1, cap = 1\<rparr>) \<and>
   prefix heap0 [[1, 2, 3], [2]] \<and> fresh heap0 \<lparr>array = Some 1, len = 1, cap = 1\<rparr>"
proof -
  have entry: "cache_h warm_provider_h (Spec_Cluster_Name prod_cluster) =
      Some \<lparr>Object_h = base0, Expiration_h = 100\<rparr>"
    by (simp add: warm_provider_h_def prod_cluster_def)
  have unexpired: "\<not> expired_h 40 \<lparr>Object_h = base0, Expiration_h = 100\<rparr>"
    "\<not> expired_h 50 \<lparr>Object_h = base0, Expiration_h = 100\<rparr>"
    by (simp_all add: expired_h_def)
  have val: "valid heap0 base0"
    by (simp add: valid_def heap0_def base0_def)
  have first: "Get_h K0 objs0 double ec2api_cancelled_h 40 41 warm_provider_h heap0 prod_cluster
      \<lparr>SubnetName = Some ''a'', SubnetTagKey = None, Zones = []\<rparr> =
      (Inr \<lparr>array = Some 2, len = 2, cap = 2\<rparr>, warm_provider_h, [[1, 2, 3], [1], [1, 3]])"
    by (simp add: Get_h_def getSubnets_h_def cache_Get_h_def expired_h_def warm_provider_h_def
        prod_cluster_def GetSubnetName_def GetSubnetTagKey_def aws_StringValue_def filter_h_def
        base0_def heap0_def upt3 cell_def objs0_def byName_def s1_def s2_def s3_def append_h_def
        growslice_def elems_def double_def Let_def)
  have second: "Get_h K0 objs0 double ec2api_cancelled_h 50 51 warm_provider_h
      [[1, 2, 3], [1], [1, 3]] prod_cluster no_constraints =
      (Inr base0, warm_provider_h, [[1, 2, 3], [1], [1, 3]])"
    by (simp add: Get_h_def getSubnets_h_def cache_Get_h_def expired_h_def warm_provider_h_def
        prod_cluster_def GetSubnetName_def GetSubnetTagKey_def no_constraints_def)
  have third: "filter_h (byName ''b'') objs0 double base0 heap0 =
      ([[1, 2, 3], [2]], \<lparr>array = Some 1, len = 1, cap = 1\<rparr>)"
    by (simp add: filter_h_def aws_StringValue_def base0_def heap0_def upt3 cell_def objs0_def
        byName_def s1_def s2_def s3_def append_h_def growslice_def elems_def double_def Let_def)
  have base: "map objs0 (elems heap0 base0) = [s1, s2, s3]"
    by (simp add: elems_def cell_def heap0_def base0_def upt3 objs0_def)
  have narrow: "narrow \<lparr>SubnetName = Some ''a'', SubnetTagKey = None, Zones = []\<rparr> [s1, s2, s3] =
      [s1, s3]"
    by (simp add: narrow_def stage_by_zone_def stage_by_tag_key_def stage_by_name_def byName_def
        aws_StringValue_def s1_def s2_def s3_def)
  from Get_h_leaves_cached_slice [where s = warm_provider_h and provisioner = prod_cluster
      and item = "\<lparr>Object_h = base0, Expiration_h = 100\<rparr>" and now = 40 and h = heap0
      and K = K0 and objs = objs0 and newcap = double and ec2api = ec2api_cancelled_h
      and later = 41
      and constraints = "\<lparr>SubnetName = Some ''a'', SubnetTagKey = None, Zones = []\<rparr>"
      and now' = 50 and provisioner' = prod_cluster and newcap' = double
      and ec2api' = ec2api_cancelled_h and later' = 51 and constraints' = no_constraints
      and subnets = base0 and predicate = "byName ''b''"]
    entry unexpired val first second third base narrow
  show ?thesis by auto
qed

end
